theory Spec2Isabelle
  imports Complex_Main "HOL-Library.Word" "HOL-Library.Monad_Syntax"
begin

section \<open>Data model of the homotopy class planner\<close>

text \<open>
  The development embeds \<^verbatim>\<open>src/homotopy_class_planner.cpp\<close>. Numbers of type
  \<^verbatim>\<open>double\<close> and \<^verbatim>\<open>long double\<close> are idealised as reals: comparisons and
  arithmetic are exact, there is no NaN and no infinity. The sentinel \<^verbatim>\<open>DBL_MAX\<close>
  keeps its value. C integers that take part in a comparison of mixed signedness are
  32-bit words.
\<close>

type_synonym Vector2d = "real \<times> real"

record PoseSE2 =
  position :: Vector2d
  theta :: real

definition pose_x :: "PoseSE2 \<Rightarrow> real" where
  "pose_x p = fst (position p)"

definition pose_y :: "PoseSE2 \<Rightarrow> real" where
  "pose_y p = snd (position p)"

definition DBL_MAX :: real where
  "DBL_MAX = (2 ^ 53 - 1) * 2 ^ 971"

definition Zero2d :: Vector2d where
  "Zero2d = (0, 0)"

definition vadd :: "Vector2d \<Rightarrow> Vector2d \<Rightarrow> Vector2d" where
  "vadd a b = (fst a + fst b, snd a + snd b)"

definition vsub :: "Vector2d \<Rightarrow> Vector2d \<Rightarrow> Vector2d" where
  "vsub a b = (fst a - fst b, snd a - snd b)"

definition vscale :: "real \<Rightarrow> Vector2d \<Rightarrow> Vector2d" where
  "vscale c a = (c * fst a, c * snd a)"

definition vdot :: "Vector2d \<Rightarrow> Vector2d \<Rightarrow> real" where
  "vdot a b = fst a * fst b + snd a * snd b"

definition vnorm :: "Vector2d \<Rightarrow> real" where
  "vnorm a = sqrt (fst a * fst a + snd a * snd a)"

text \<open>
  Eigen's \<^verbatim>\<open>normalize()\<close>: division by the norm. For the zero vector the quotient is
  \<open>0 / 0\<close>, which HOL reads as \<open>0\<close>: the vector stays zero, as in Eigen from 3.3 on.
\<close>

definition vnormalize :: "Vector2d \<Rightarrow> Vector2d" where
  "vnormalize a = (fst a / vnorm a, snd a / vnorm a)"

text \<open>
  The fields of \<^verbatim>\<open>TebConfig\<close> that the planner reads (\<^verbatim>\<open>goal_tolerance.*\<close>,
  \<^verbatim>\<open>obstacles.*\<close>, \<^verbatim>\<open>optim.*\<close> and \<^verbatim>\<open>hcp.*\<close>), in one flat record. The
  iteration counts and the number of samples are used as unsigned numbers.
\<close>

record TebConfig =
  xy_goal_tolerance :: real
  min_obstacle_dist :: real
  no_inner_iterations :: nat
  no_outer_iterations :: nat
  enable_multithreading :: bool
  simple_exploration :: bool
  max_number_classes :: int
  roadmap_graph_no_samples :: nat
  roadmap_graph_area_width :: real
  h_signature_prescaler :: real
  h_signature_threshold :: real
  obstacle_heading_threshold :: real

text \<open>
  The graph \<^verbatim>\<open>HcGraph\<close>: vertices are numbered in insertion order and carry a position;
  directed edges are kept in insertion order, which is the order in which
  \<^verbatim>\<open>boost::adjacent_vertices\<close> lists the targets.
\<close>

record HcGraph =
  vertex_pos :: "Vector2d list"
  edges :: "(nat \<times> nat) list"

definition empty_graph :: HcGraph where
  "empty_graph = \<lparr>vertex_pos = [], edges = []\<rparr>"

definition add_vertex :: "Vector2d \<Rightarrow> HcGraph \<Rightarrow> nat \<times> HcGraph" where
  "add_vertex p g = (length (vertex_pos g), g\<lparr>vertex_pos := vertex_pos g @ [p]\<rparr>)"

definition add_edge :: "nat \<Rightarrow> nat \<Rightarrow> HcGraph \<Rightarrow> HcGraph" where
  "add_edge u v g = g\<lparr>edges := edges g @ [(u, v)]\<rparr>"

definition adjacent_vertices :: "nat \<Rightarrow> HcGraph \<Rightarrow> nat list" where
  "adjacent_vertices u g = map snd (filter (\<lambda>e. fst e = u) (edges g))"

text \<open>
  The collaborators of the planner that live outside this file: the obstacle interface,
  the trajectory optimiser \<^verbatim>\<open>TebOptimalPlanner\<close> with its band, the H-signature
  integral, the random generator and \<^verbatim>\<open>ros::ok()\<close>. A candidate is a value of type
  \<open>'teb\<close>, an obstacle a value of type \<open>'obst\<close>; an operation that mutates a candidate
  returns the new candidate. \<open>rnd_uniform k\<close> is the \<open>k\<close>-th draw of the generator
  from the unit interval, \<open>ros_ok k\<close> the answer of \<^verbatim>\<open>ros::ok()\<close> after \<open>k\<close> draws.
\<close>

record ('teb, 'obst) collab =
  getCentroid :: "'obst \<Rightarrow> Vector2d"
  getMinimumDistance :: "'obst \<Rightarrow> Vector2d \<Rightarrow> real"
  checkLineIntersection :: "'obst \<Rightarrow> Vector2d \<Rightarrow> Vector2d \<Rightarrow> real \<Rightarrow> bool"
  checkCollision :: "'obst \<Rightarrow> Vector2d \<Rightarrow> real \<Rightarrow> bool"
  calculateHSignature :: "Vector2d list \<Rightarrow> 'obst list option \<Rightarrow> real \<Rightarrow> complex"
  poses :: "'teb \<Rightarrow> PoseSE2 list"
  findClosestTrajectoryPose :: "'teb \<Rightarrow> Vector2d \<Rightarrow> nat"
  detectDetoursBackwards :: "'teb \<Rightarrow> real \<Rightarrow> bool"
  getCurrentCost :: "'teb \<Rightarrow> real list"
  teb_getVelocityCommand :: "'teb \<Rightarrow> Vector2d"
  updateAndPruneTEB :: "'teb \<Rightarrow> PoseSE2 option \<Rightarrow> PoseSE2 option \<Rightarrow> 'teb"
  setVelocityStart :: "'teb \<Rightarrow> Vector2d \<Rightarrow> 'teb"
  optimizeTEB :: "'teb \<Rightarrow> nat \<Rightarrow> nat \<Rightarrow> bool \<Rightarrow> 'teb"
  initTEBtoGoal :: "Vector2d list \<Rightarrow> real \<Rightarrow> real \<Rightarrow> 'teb"
  rnd_uniform :: "nat \<Rightarrow> real"
  ros_ok :: "nat \<Rightarrow> bool"

text \<open>
  The members of \<^verbatim>\<open>HomotopyClassPlanner\<close>. \<open>obstacles\<close> is \<open>None\<close> for a null
  pointer. \<open>best_teb\<close> is the shared pointer \<^verbatim>\<open>best_teb_\<close>, \<open>None\<close> when it is reset.
  \<open>rnd_generator\<close> counts the draws taken from the generator so far.
\<close>

record ('teb, 'obst) planner =
  cfg :: TebConfig
  obstacles :: "'obst list option"
  initialized :: bool
  graph :: HcGraph
  tebs :: "'teb list"
  best_teb :: "'teb option"
  h_signatures :: "complex list"
  rnd_generator :: nat

section \<open>The class registry\<close>

text \<open>The comparison inside the loop of \<^verbatim>\<open>addNewHSignatureIfNew\<close>.\<close>

definition h_close :: "real \<Rightarrow> complex \<Rightarrow> complex \<Rightarrow> bool" where
  "h_close threshold h H =
     (let diff_real = \<bar>Re h - Re H\<bar>; diff_imag = \<bar>Im h - Im H\<bar>
      in diff_real \<le> threshold \<and> diff_imag \<le> threshold)"

text \<open>The scan over \<^verbatim>\<open>h_signatures_\<close>: \<open>True\<close> when it returns early.\<close>

primrec h_found :: "real \<Rightarrow> complex \<Rightarrow> complex list \<Rightarrow> bool" where
  "h_found threshold H [] = False"
| "h_found threshold H (h # hs) = (if h_close threshold h H then True else h_found threshold H hs)"

definition addNewHSignatureIfNew ::
  "complex \<Rightarrow> real \<Rightarrow> ('teb, 'obst) planner \<Rightarrow> bool \<times> ('teb, 'obst) planner" where
  "addNewHSignatureIfNew H threshold s =
     (if h_found threshold H (h_signatures s) then (False, s)
      else (True, s\<lparr>h_signatures := h_signatures s @ [H]\<rparr>))"

section \<open>Selection, detour cleanup, command and feasibility\<close>

text \<open>
  The loop of \<^verbatim>\<open>selectBestTeb\<close> over the remaining candidates, with the current
  \<^verbatim>\<open>best_teb_\<close> and \<^verbatim>\<open>min_cost\<close>.
\<close>

primrec select_loop ::
  "('teb, 'obst) collab \<Rightarrow> 'teb list \<Rightarrow> 'teb option \<Rightarrow> real \<Rightarrow> 'teb option" where
  "select_loop E [] best min_cost = best"
| "select_loop E (t # ts) best min_cost =
     (let teb_cost = sum_list (getCurrentCost E t)
      in if teb_cost < min_cost then select_loop E ts (Some t) teb_cost
         else select_loop E ts best min_cost)"

definition selectBestTeb ::
  "('teb, 'obst) collab \<Rightarrow> ('teb, 'obst) planner \<Rightarrow> 'teb option \<times> ('teb, 'obst) planner" where
  "selectBestTeb E s =
     (let best = select_loop E (tebs s) None DBL_MAX
      in (best, s\<lparr>best_teb := best\<rparr>))"

text \<open>
  The loop of \<^verbatim>\<open>deleteTebDetours\<close>: \<open>kept\<close> are the candidates before the iterator,
  the last argument those from the iterator on, so that \<^verbatim>\<open>tebs_.size()\<close> is the sum of
  both lengths.
\<close>

fun detour_loop ::
  "('teb, 'obst) collab \<Rightarrow> real \<Rightarrow> 'teb list \<Rightarrow> 'teb list \<Rightarrow> 'teb list" where
  "detour_loop E threshold kept [] = kept"
| "detour_loop E threshold kept (t # rest) =
     (if length kept + length (t # rest) > 1 \<and> detectDetoursBackwards E t threshold
      then detour_loop E threshold kept rest
      else detour_loop E threshold (kept @ [t]) rest)"

definition deleteTebDetours ::
  "('teb, 'obst) collab \<Rightarrow> real \<Rightarrow> ('teb, 'obst) planner \<Rightarrow> ('teb, 'obst) planner" where
  "deleteTebDetours E threshold s = s\<lparr>tebs := detour_loop E threshold [] (tebs s)\<rparr>"

definition getVelocityCommand ::
  "('teb, 'obst) collab \<Rightarrow> ('teb, 'obst) planner \<Rightarrow> Vector2d" where
  "getVelocityCommand E s =
     (case best_teb s of None \<Rightarrow> Zero2d | Some best \<Rightarrow> teb_getVelocityCommand E best)"

text \<open>
  The loop of \<^verbatim>\<open>isTrajectoryFeasible\<close>. The counter is an \<^verbatim>\<open>unsigned int\<close> and the
  bound is compared as one. Reading a pose outside the band has no defined result:
  the loop yields \<open>None\<close> there, as it does when it never ends.
\<close>

partial_function (option) feasible_loop ::
  "(PoseSE2 \<Rightarrow> real) \<Rightarrow> PoseSE2 list \<Rightarrow> 32 word \<Rightarrow> 32 word \<Rightarrow> bool option" where
  "feasible_loop cost ps look_ahead_idx i =
     (if i \<le> look_ahead_idx then
        (if unat i < length ps then
           (if cost (ps ! unat i) < 0 then Some False
            else feasible_loop cost ps look_ahead_idx (i + 1))
         else None)
      else Some True)"

text \<open>
  \<open>footprintCost\<close> is the costmap model's oracle. \<open>look_ahead_idx\<close> is a C \<^verbatim>\<open>int\<close>,
  read as a signed 32-bit word; the number of poses is cast to \<^verbatim>\<open>int\<close>.
\<close>

definition isTrajectoryFeasible ::
  "('teb, 'obst) collab \<Rightarrow> (real \<Rightarrow> real \<Rightarrow> real \<Rightarrow> 'fp \<Rightarrow> real \<Rightarrow> real \<Rightarrow> real) \<Rightarrow> 'fp \<Rightarrow>
     real \<Rightarrow> real \<Rightarrow> 32 word \<Rightarrow> ('teb, 'obst) planner \<Rightarrow> bool option" where
  "isTrajectoryFeasible E footprintCost footprint_spec inscribed_radius circumscribed_radius
       look_ahead_idx s =
     (case best_teb s of
        None \<Rightarrow> Some False
      | Some best \<Rightarrow>
          (let sizePoses = (word_of_nat (length (poses E best)) :: 32 word);
               idx = (if look_ahead_idx <s 0 \<or> sizePoses \<le>s look_ahead_idx
                      then sizePoses - 1 else look_ahead_idx)
           in feasible_loop
                (\<lambda>p. footprintCost (pose_x p) (pose_y p) (theta p) footprint_spec
                        inscribed_radius circumscribed_radius)
                (poses E best) idx 0))"

section \<open>Path enumeration\<close>

text \<open>
  Modelled from the spec: \<^verbatim>\<open>addAndInitNewTeb\<close> is a template of the class header, which
  is not among the sources. The spec (4.5, Explore): for each newly accepted class,
  instantiate a new candidate initialized along the discovered waypoints with given
  start/goal orientation. The new candidate goes to the end of the pool.
\<close>

definition addAndInitNewTeb ::
  "('teb, 'obst) collab \<Rightarrow> Vector2d list \<Rightarrow> real \<Rightarrow> real \<Rightarrow> ('teb, 'obst) planner \<Rightarrow>
     ('teb, 'obst) planner" where
  "addAndInitNewTeb E path start_orientation goal_orientation s =
     s\<lparr>tebs := tebs s @ [initTEBtoGoal E path start_orientation goal_orientation]\<rparr>"

text \<open>\<^verbatim>\<open>getCplxFromHcGraph\<close> and \<^verbatim>\<open>getVector2dFromHcGraph\<close> read a vertex position.\<close>

definition getVector2dFromHcGraph :: "nat \<Rightarrow> HcGraph \<Rightarrow> Vector2d" where
  "getVector2dFromHcGraph vert_descriptor g = vertex_pos g ! vert_descriptor"

text \<open>
  The first loop of \<^verbatim>\<open>DepthFirst\<close> over the adjacent vertices of \<^verbatim>\<open>visited.back()\<close>:
  it closes the path at the goal, hands it to the classifier and breaks.
\<close>

fun DepthFirst_goal ::
  "('teb, 'obst) collab \<Rightarrow> nat list \<Rightarrow> nat \<Rightarrow> real \<Rightarrow> real \<Rightarrow> nat list \<Rightarrow>
     ('teb, 'obst) planner \<Rightarrow> ('teb, 'obst) planner" where
  "DepthFirst_goal E visited goal start_orientation goal_orientation [] s = s"
| "DepthFirst_goal E visited goal start_orientation goal_orientation (v # vs) s =
     (if v \<in> set visited
      then DepthFirst_goal E visited goal start_orientation goal_orientation vs s
      else if v = goal then
        (let path = map (\<lambda>u. getVector2dFromHcGraph u (graph s)) (visited @ [v]);
             H = calculateHSignature E path (obstacles s) (h_signature_prescaler (cfg s));
             r = addNewHSignatureIfNew H 0.1 s
         in if fst r
            then addAndInitNewTeb E path start_orientation goal_orientation (snd r)
            else snd r)
      else DepthFirst_goal E visited goal start_orientation goal_orientation vs s)"

text \<open>
  \<^verbatim>\<open>DepthFirst\<close>: the budget check, the goal loop, then the recursion over the
  adjacent vertices, with the planner threaded through. \<^verbatim>\<open>visited\<close> is never empty
  at a call.
\<close>

function DepthFirst ::
  "('teb, 'obst) collab \<Rightarrow> HcGraph \<Rightarrow> nat list \<Rightarrow> nat \<Rightarrow> real \<Rightarrow> real \<Rightarrow>
     ('teb, 'obst) planner \<Rightarrow> ('teb, 'obst) planner" where
  "DepthFirst E g visited goal start_orientation goal_orientation s =
     (if max_number_classes (cfg s) \<le> int (length (tebs s)) then s
      else
        (let back = last visited;
             s1 = DepthFirst_goal E visited goal start_orientation goal_orientation
                    (adjacent_vertices back g) s
         in fold
              (\<lambda>v st. if v \<in> set visited \<or> v = goal then st
                       else DepthFirst E g (visited @ [v]) goal start_orientation
                              goal_orientation st)
              (adjacent_vertices back g) s1))"
  by pat_completeness auto
termination
  apply (relation "measure (\<lambda>(E, g, visited, goal, so, go, s).
                   card (snd ` set (edges g) - set visited))")
   apply simp
  subgoal for E g visited goal so go s bk s1 v st
    apply simp
    apply (rule psubset_card_mono)
     apply simp
    apply (auto simp: adjacent_vertices_def)
    done
  done

declare DepthFirst.simps [simp del]

section \<open>Re-analysis of the old candidates\<close>

text \<open>
  The obstacle loop of \<^verbatim>\<open>renewAndAnalyzeOldTebs\<close> for one candidate, with the current
  \<^verbatim>\<open>flag\<close>. \<^verbatim>\<open>Pose(i)\<close> reads the band at the index the band itself reported.
\<close>

definition Pose :: "('teb, 'obst) collab \<Rightarrow> 'teb \<Rightarrow> nat \<Rightarrow> PoseSE2" where
  "Pose E t i = poses E t ! i"

primrec near_loop :: "('teb, 'obst) collab \<Rightarrow> 'teb \<Rightarrow> 'obst list \<Rightarrow> bool \<Rightarrow> bool" where
  "near_loop E t [] flag = flag"
| "near_loop E t (ob # obs) flag =
     (let dist = getMinimumDistance E ob
                   (position (Pose E t (findClosestTrajectoryPose E t (getCentroid E ob))))
      in near_loop E t obs (if dist < 0.03 then True else flag))"

text \<open>
  The first loop: \<open>kept\<close> are the candidates before the iterator, the next argument
  those from the iterator on. An entry of \<^verbatim>\<open>teb_candidates\<close> holds the candidate its
  iterator points to. The loop over the obstacles dereferences \<^verbatim>\<open>obstacles_\<close>: with
  a null pointer there is no result.
\<close>

fun renew_scan ::
  "('teb, 'obst) collab \<Rightarrow> TebConfig \<Rightarrow> 'obst list option \<Rightarrow> bool \<Rightarrow> 'teb list \<Rightarrow> 'teb list \<Rightarrow>
     ('teb \<times> complex) list \<Rightarrow> ('teb list \<times> ('teb \<times> complex) list) option" where
  "renew_scan E c obs delete_detours kept [] teb_candidates = Some (kept, teb_candidates)"
| "renew_scan E c obs delete_detours kept (t # rest) teb_candidates =
     (if delete_detours \<and> length kept + length (t # rest) > 1
           \<and> detectDetoursBackwards E t (cos (obstacle_heading_threshold c))
      then renew_scan E c obs delete_detours kept rest teb_candidates
      else
        (case obs of
           None \<Rightarrow> None
         | Some os \<Rightarrow>
             if near_loop E t os False
             then renew_scan E c obs delete_detours kept rest teb_candidates
             else
               (let H = calculateHSignature E (map position (poses E t)) obs
                          (h_signature_prescaler c)
                in renew_scan E c obs delete_detours (kept @ [t]) rest
                     (teb_candidates @ [(t, H)]))))"

definition compareH :: "'teb \<times> complex \<Rightarrow> complex \<Rightarrow> bool" where
  "compareH i j = (\<bar>Re (snd i) - Re j\<bar> < 0.1 \<and> \<bar>Im (snd i) - Im j\<bar> < 0.1)"

text \<open>\<^verbatim>\<open>std::find_if\<close>: the position of the first match, the length when there is none.\<close>

primrec find_if :: "('a \<Rightarrow> bool) \<Rightarrow> 'a list \<Rightarrow> nat" where
  "find_if P [] = 0"
| "find_if P (x # xs) = (if P x then 0 else Suc (find_if P xs))"

definition erase_at :: "nat \<Rightarrow> 'a list \<Rightarrow> 'a list" where
  "erase_at i xs = take i xs @ drop (Suc i) xs"

text \<open>
  The second loop, over \<^verbatim>\<open>teb_candidates\<close>, with \<^verbatim>\<open>cand_i\<close> as a position. The
  container of the candidates is declared outside this file: erasing through a stored
  iterator removes the candidate it points to (candidates of the pool are distinct
  objects). After \<^verbatim>\<open>teb_candidates.erase(cand_j)\<close> the iterator \<^verbatim>\<open>cand_i\<close> keeps its
  position in the vector.
\<close>

function renew_dedup ::
  "('teb, 'obst) collab \<Rightarrow> 'teb list \<Rightarrow> ('teb \<times> complex) list \<Rightarrow> nat \<Rightarrow>
     'teb list \<times> ('teb \<times> complex) list" where
  "renew_dedup E ts teb_candidates cand_i =
     (if cand_i < length teb_candidates then
        (let cand_j = find_if (\<lambda>c. compareH c (snd (teb_candidates ! cand_i))) teb_candidates
         in if cand_j \<noteq> length teb_candidates \<and> cand_j \<noteq> cand_i then
              (if sum_list (getCurrentCost E (fst (teb_candidates ! cand_j)))
                    > sum_list (getCurrentCost E (fst (teb_candidates ! cand_i)))
               then renew_dedup E (remove1 (fst (teb_candidates ! cand_j)) ts)
                      (erase_at cand_j teb_candidates) cand_i
               else renew_dedup E (remove1 (fst (teb_candidates ! cand_i)) ts)
                      (erase_at cand_i teb_candidates) cand_i)
            else renew_dedup E ts teb_candidates (cand_i + 1))
      else (ts, teb_candidates))"
  by pat_completeness auto
termination
proof -
  have le: "find_if P xs \<le> length xs" for P :: "('teb \<times> complex) \<Rightarrow> bool" and xs
    by (induction xs) auto
  show ?thesis
    apply (relation "measure (\<lambda>(E, ts, cs, i). length cs - i)")
       apply simp
    subgoal for E ts cs i j
      using le [of "\<lambda>c. compareH c (snd (cs ! i))" cs] by (simp add: erase_at_def)
    subgoal for E ts cs i j
      by (simp add: erase_at_def)
    subgoal for E ts cs i j
      by simp
    done
qed

declare renew_dedup.simps [simp del]

text \<open>The third loop: the surviving signatures are registered again.\<close>

fun renew_register ::
  "('teb \<times> complex) list \<Rightarrow> ('teb, 'obst) planner \<Rightarrow> ('teb, 'obst) planner" where
  "renew_register [] s = s"
| "renew_register (cand # cands) s =
     (let r = addNewHSignatureIfNew (snd cand) (h_signature_threshold (cfg s)) s
      in renew_register cands
           (if \<not> fst r then (snd r)\<lparr>tebs := remove1 (fst cand) (tebs (snd r))\<rparr> else snd r))"

definition renewAndAnalyzeOldTebs ::
  "('teb, 'obst) collab \<Rightarrow> bool \<Rightarrow> ('teb, 'obst) planner \<Rightarrow> ('teb, 'obst) planner option" where
  "renewAndAnalyzeOldTebs E delete_detours s =
     (case renew_scan E (cfg s) (obstacles s) delete_detours [] (tebs s) [] of
        None \<Rightarrow> None
      | Some sc \<Rightarrow>
          (let dd = renew_dedup E (fst sc) (snd sc) 0
           in Some (renew_register (snd dd) (s\<lparr>h_signatures := [], tebs := fst dd\<rparr>))))"

section \<open>Graph builders\<close>

text \<open>
  The obstacle loop of \<^verbatim>\<open>createGraph\<close>, with the graph, the keypoints of the nearest
  obstacle (read only after they were assigned) and \<^verbatim>\<open>min_dist\<close>. For an obstacle
  whose centroid is the start position the quotient of the test is \<open>0 / 0\<close>, not a
  number in the source, so the test fails and the obstacle is not skipped.
\<close>

fun keypoint_loop ::
  "('teb, 'obst) collab \<Rightarrow> Vector2d \<Rightarrow> Vector2d \<Rightarrow> Vector2d \<Rightarrow> bool \<Rightarrow> 'obst list \<Rightarrow>
     HcGraph \<Rightarrow> (nat \<times> nat) option \<Rightarrow> real \<Rightarrow> HcGraph \<times> (nat \<times> nat) option \<times> real" where
  "keypoint_loop E start_pos diff normal limit_obstacle_heading [] g nearest_obstacle min_dist =
     (g, nearest_obstacle, min_dist)"
| "keypoint_loop E start_pos diff normal limit_obstacle_heading (ob # obs) g nearest_obstacle
       min_dist =
     (let start2obst = vsub (getCentroid E ob) start_pos;
          dist = vnorm start2obst
      in if dist \<noteq> 0 \<and> vdot start2obst diff / dist < 0.1
         then keypoint_loop E start_pos diff normal limit_obstacle_heading obs g
                nearest_obstacle min_dist
         else
           (let u = add_vertex (vadd (getCentroid E ob) normal) g;
                v = add_vertex (vsub (getCentroid E ob) normal) (snd u)
            in if limit_obstacle_heading \<and> dist < min_dist
               then keypoint_loop E start_pos diff normal limit_obstacle_heading obs (snd v)
                      (Some (fst u, fst v)) dist
               else keypoint_loop E start_pos diff normal limit_obstacle_heading obs (snd v)
                      nearest_obstacle min_dist))"

definition line_collision ::
  "('teb, 'obst) collab \<Rightarrow> 'obst list \<Rightarrow> Vector2d \<Rightarrow> Vector2d \<Rightarrow> real \<Rightarrow> bool" where
  "line_collision E obs p q clearance = (\<exists>ob \<in> set obs. checkLineIntersection E ob p q clearance)"

text \<open>The body of the two edge loops of \<^verbatim>\<open>createGraph\<close> for the pair \<open>(i, j)\<close>.\<close>

definition createGraph_edge ::
  "('teb, 'obst) collab \<Rightarrow> TebConfig \<Rightarrow> 'obst list option \<Rightarrow> PoseSE2 \<Rightarrow> real \<Rightarrow> bool \<Rightarrow>
     Vector2d \<Rightarrow> nat \<Rightarrow> (nat \<times> nat) option \<Rightarrow> real \<Rightarrow> nat \<Rightarrow> nat \<Rightarrow> HcGraph \<Rightarrow> HcGraph" where
  "createGraph_edge E c obs start dist_to_obst limit_obstacle_heading diff start_vtx
       nearest_obstacle min_dist i j g =
     (if i = j then g
      else
        (let distij = vnormalize (vsub (vertex_pos g ! j) (vertex_pos g ! i))
         in if vdot distij diff \<le> cos (obstacle_heading_threshold c) then g
            else if limit_obstacle_heading \<and> i = start_vtx \<and> min_dist \<noteq> DBL_MAX
                    \<and> (case nearest_obstacle of None \<Rightarrow> False
                        | Some n \<Rightarrow> j = fst n \<or> j = snd n)
                    \<and> (let keypoint_dist = vnormalize (vsub (vertex_pos g ! j) (position start));
                            start_orient_vec = (cos (theta start), sin (theta start))
                        in vdot start_orient_vec keypoint_dist
                             < cos (obstacle_heading_threshold c))
            then g
            else if (case obs of None \<Rightarrow> False
                     | Some os \<Rightarrow> line_collision E os (vertex_pos g ! i) (vertex_pos g ! j)
                                   (0.5 * dist_to_obst))
            then g
            else add_edge i j g))"

text \<open>
  \<^verbatim>\<open>createGraph\<close> in three parts: the vertices, the edges, and the function itself,
  which first empties the graph (\<^verbatim>\<open>clearGraph()\<close>: the graph is rebuilt from scratch
  every cycle) and ends with the path search from the start vertex.

  The vertices of \<^verbatim>\<open>createGraph\<close>: the start vertex, the keypoints, the goal vertex.
  The result is the start vertex, the goal vertex, the graph, and the keypoints of the
  nearest obstacle with \<^verbatim>\<open>min_dist\<close>.
\<close>

definition createGraph_vertices ::
  "('teb, 'obst) collab \<Rightarrow> 'obst list option \<Rightarrow> PoseSE2 \<Rightarrow> PoseSE2 \<Rightarrow> real \<Rightarrow> bool \<Rightarrow> HcGraph \<Rightarrow>
     nat \<times> nat \<times> HcGraph \<times> (nat \<times> nat) option \<times> real" where
  "createGraph_vertices E obs start goal dist_to_obst limit_obstacle_heading g0 =
     (let diff = vsub (position goal) (position start);
          normal = vscale dist_to_obst (vnormalize (- snd diff, fst diff));
          start_vtx = add_vertex (position start) g0;
          diff = vnormalize diff;
          kp = (case obs of
                  None \<Rightarrow> (snd start_vtx, None, DBL_MAX)
                | Some os \<Rightarrow>
                    keypoint_loop E (position start) diff normal limit_obstacle_heading os
                      (snd start_vtx) None DBL_MAX);
          goal_vtx = add_vertex (position goal) (fst kp)
      in (fst start_vtx, fst goal_vtx, snd goal_vtx, snd kp))"

text \<open>
  The edges of \<^verbatim>\<open>createGraph\<close>: the outer loop leaves out the last vertex, the goal;
  the inner loop runs over all vertices.
\<close>

definition createGraph_edges ::
  "('teb, 'obst) collab \<Rightarrow> TebConfig \<Rightarrow> 'obst list option \<Rightarrow> PoseSE2 \<Rightarrow> real \<Rightarrow> bool \<Rightarrow>
     Vector2d \<Rightarrow> nat \<Rightarrow> (nat \<times> nat) option \<times> real \<Rightarrow> HcGraph \<Rightarrow> HcGraph" where
  "createGraph_edges E c obs start dist_to_obst limit_obstacle_heading diff start_vtx nearest g =
     (let n = length (vertex_pos g)
      in fold
           (\<lambda>i. fold
              (createGraph_edge E c obs start dist_to_obst limit_obstacle_heading diff start_vtx
                 (fst nearest) (snd nearest) i)
              [0 ..< n])
           [0 ..< n - 1] g)"

definition createGraph ::
  "('teb, 'obst) collab \<Rightarrow> PoseSE2 \<Rightarrow> PoseSE2 \<Rightarrow> real \<Rightarrow> bool \<Rightarrow> ('teb, 'obst) planner \<Rightarrow>
     ('teb, 'obst) planner" where
  "createGraph E start goal dist_to_obst limit_obstacle_heading s =
     (let s0 = s\<lparr>graph := empty_graph\<rparr>;
          diff = vsub (position goal) (position start)
      in if vnorm diff < xy_goal_tolerance (cfg s) then s0
         else
           (case createGraph_vertices E (obstacles s) start goal dist_to_obst
                   limit_obstacle_heading (graph s0) of
              (start_vtx, goal_vtx, g1, nearest) \<Rightarrow>
                (let g = createGraph_edges E (cfg s) (obstacles s) start dist_to_obst
                           limit_obstacle_heading (vnormalize diff) start_vtx nearest g1
                 in DepthFirst E g [start_vtx] goal_vtx (theta start) (theta goal)
                      (s0\<lparr>graph := g\<rparr>))))"

text \<open>
  The roadmap builder. \<^verbatim>\<open>atan2\<close> and the rotation \<^verbatim>\<open>Eigen::Rotation2D\<close>; a draw of
  \<^verbatim>\<open>uniform_real_distribution(a, b)\<close> scales a draw from the unit interval.
\<close>

definition atan2 :: "real \<Rightarrow> real \<Rightarrow> real" where
  "atan2 y x =
     (if 0 < x then arctan (y / x)
      else if x < 0 \<and> 0 \<le> y then arctan (y / x) + pi
      else if x < 0 then arctan (y / x) - pi
      else if 0 < y then pi / 2
      else if y < 0 then - pi / 2
      else 0)"

definition rotate2d :: "real \<Rightarrow> Vector2d \<Rightarrow> Vector2d" where
  "rotate2d phi v = (cos phi * fst v - sin phi * snd v, sin phi * fst v + cos phi * snd v)"

definition uniform_real :: "real \<Rightarrow> real \<Rightarrow> real \<Rightarrow> real" where
  "uniform_real a b u = a + (b - a) * u"

text \<open>
  The sampling loop \<^verbatim>\<open>do ... while (!coll_free && ros::ok())\<close>, from draw \<open>k\<close> of the
  generator on. It ends only with a collision-free sample or when \<^verbatim>\<open>ros::ok()\<close>
  fails; \<open>None\<close> stands for a loop that never ends. The result is the sample and the
  number of draws taken.
\<close>

partial_function (option) sample_loop ::
  "('teb, 'obst) collab \<Rightarrow> 'obst list \<Rightarrow> real \<Rightarrow> Vector2d \<Rightarrow> real \<Rightarrow> real \<Rightarrow> real \<Rightarrow> nat \<Rightarrow>
     (Vector2d \<times> nat) option" where
  "sample_loop E obs dist_to_obst area_origin phi start_goal_dist area_width k =
     (let sample = vadd area_origin
                     (rotate2d phi
                        (uniform_real 0 start_goal_dist (rnd_uniform E k),
                         uniform_real 0 area_width (rnd_uniform E (k + 1))));
          coll_free = (\<not> (\<exists>ob \<in> set obs. checkCollision E ob sample dist_to_obst))
      in if \<not> coll_free \<and> ros_ok E (k + 2)
         then sample_loop E obs dist_to_obst area_origin phi start_goal_dist area_width (k + 2)
         else Some (sample, k + 2))"

text \<open>
  The loop over the samples: \<open>n\<close> samples are still to be drawn. Each round goes
  through \<^verbatim>\<open>obstacles_\<close>: with a null pointer there is no result.
\<close>

fun roadmap_samples ::
  "('teb, 'obst) collab \<Rightarrow> 'obst list option \<Rightarrow> real \<Rightarrow> Vector2d \<Rightarrow> real \<Rightarrow> real \<Rightarrow> real \<Rightarrow> nat \<Rightarrow>
     HcGraph \<Rightarrow> nat \<Rightarrow> (HcGraph \<times> nat) option" where
  "roadmap_samples E obs dist_to_obst area_origin phi start_goal_dist area_width 0 g k =
     Some (g, k)"
| "roadmap_samples E obs dist_to_obst area_origin phi start_goal_dist area_width (Suc n) g k =
     (case obs of
        None \<Rightarrow> None
      | Some os \<Rightarrow>
          (case sample_loop E os dist_to_obst area_origin phi start_goal_dist area_width k of
             None \<Rightarrow> None
           | Some r \<Rightarrow>
               roadmap_samples E obs dist_to_obst area_origin phi start_goal_dist area_width n
                 (snd (add_vertex (fst r) g)) (snd r)))"

text \<open>A loop whose body may have no result.\<close>

primrec fold_option :: "('a \<Rightarrow> 'b \<Rightarrow> 'b option) \<Rightarrow> 'a list \<Rightarrow> 'b \<Rightarrow> 'b option" where
  "fold_option f [] s = Some s"
| "fold_option f (x # xs) s = (case f x s of None \<Rightarrow> None | Some s' \<Rightarrow> fold_option f xs s')"

text \<open>
  The body of the edge loops of \<^verbatim>\<open>createProbRoadmapGraph\<close>: the collision check
  is not guarded against a null \<^verbatim>\<open>obstacles_\<close>.
\<close>

definition roadmap_edge ::
  "('teb, 'obst) collab \<Rightarrow> TebConfig \<Rightarrow> 'obst list option \<Rightarrow> real \<Rightarrow> Vector2d \<Rightarrow> nat \<Rightarrow> nat \<Rightarrow>
     HcGraph \<Rightarrow> HcGraph option" where
  "roadmap_edge E c obs dist_to_obst diff i j g =
     (if i = j then Some g
      else
        (let distij = vnormalize (vsub (vertex_pos g ! j) (vertex_pos g ! i))
         in if vdot distij diff \<le> cos (obstacle_heading_threshold c) then Some g
            else
              (case obs of
                 None \<Rightarrow> None
               | Some os \<Rightarrow>
                   if line_collision E os (vertex_pos g ! i) (vertex_pos g ! j)
                        (0.5 * dist_to_obst)
                   then Some g
                   else Some (add_edge i j g))))"

definition createProbRoadmapGraph ::
  "('teb, 'obst) collab \<Rightarrow> PoseSE2 \<Rightarrow> PoseSE2 \<Rightarrow> real \<Rightarrow> bool \<Rightarrow> ('teb, 'obst) planner \<Rightarrow>
     ('teb, 'obst) planner option" where
  "createProbRoadmapGraph E start goal dist_to_obst limit_obstacle_heading s =
     (let s0 = s\<lparr>graph := empty_graph\<rparr>;
          diff = vsub (position goal) (position start);
          start_goal_dist = vnorm diff
      in if start_goal_dist < xy_goal_tolerance (cfg s) then Some s0
         else
           (let normal = vnormalize (- snd diff, fst diff);
                area_width = roadmap_graph_area_width (cfg s);
                phi = atan2 (snd diff) (fst diff);
                area_origin = vsub (position start) (vscale (0.5 * area_width) normal);
                start_vtx = add_vertex (position start) (graph s0);
                diff = vnormalize diff
            in case roadmap_samples E (obstacles s) dist_to_obst area_origin phi start_goal_dist
                      area_width (roadmap_graph_no_samples (cfg s)) (snd start_vtx)
                      (rnd_generator s) of
                 None \<Rightarrow> None
               | Some sm \<Rightarrow>
                   (let goal_vtx = add_vertex (position goal) (fst sm);
                        n = length (vertex_pos (snd goal_vtx))
                    in case fold_option
                              (\<lambda>i. fold_option
                                 (roadmap_edge E (cfg s) (obstacles s) dist_to_obst diff i)
                                 [0 ..< n])
                              [0 ..< n - 1] (snd goal_vtx) of
                         None \<Rightarrow> None
                       | Some g \<Rightarrow>
                           Some (DepthFirst E g [fst start_vtx] (fst goal_vtx) (theta start)
                                   (theta goal)
                                   (s0\<lparr>graph := g, rnd_generator := snd sm\<rparr>)))))"

section \<open>The planning cycle\<close>

definition exploreHomotopyClassesAndInitTebs ::
  "('teb, 'obst) collab \<Rightarrow> PoseSE2 \<Rightarrow> PoseSE2 \<Rightarrow> real \<Rightarrow> real \<Rightarrow> ('teb, 'obst) planner \<Rightarrow>
     ('teb, 'obst) planner option" where
  "exploreHomotopyClassesAndInitTebs E start goal dist_to_obst hp_threshold s =
     (case renewAndAnalyzeOldTebs E False s of
        None \<Rightarrow> None
      | Some s1 \<Rightarrow>
          if simple_exploration (cfg s1)
          then Some (createGraph E start goal dist_to_obst
                       (obstacle_heading_threshold (cfg s1) \<noteq> 0) s1)
          else createProbRoadmapGraph E start goal dist_to_obst
                 (obstacle_heading_threshold (cfg s1) \<noteq> 0) s1)"




section \<open>Vocabulary of the properties\<close>

text \<open>A sequence of calls of \<^verbatim>\<open>addNewHSignatureIfNew\<close> with one threshold.\<close>

definition register_all :: "real \<Rightarrow> complex list \<Rightarrow> ('teb, 'obst) planner \<Rightarrow> ('teb, 'obst) planner" where
  "register_all threshold Hs s = fold (\<lambda>H st. snd (addNewHSignatureIfNew H threshold st)) Hs s"

text \<open>
  The index \<^verbatim>\<open>isTrajectoryFeasible\<close> walks up to, for a band of \<open>n\<close> poses: the last
  pose index when \<^verbatim>\<open>look_ahead_idx\<close> is negative or not below \<open>n\<close>.
\<close>

definition clamp_idx :: "nat \<Rightarrow> 32 word \<Rightarrow> nat" where
  "clamp_idx n look_ahead_idx =
     (if sint look_ahead_idx < 0 \<or> int n \<le> sint look_ahead_idx then n - 1
      else nat (sint look_ahead_idx))"

text \<open>The members that neither the registry nor the pool operations touch.\<close>

definition same_frame :: "('teb, 'obst) planner \<Rightarrow> ('teb, 'obst) planner \<Rightarrow> bool" where
  "same_frame s s' \<longleftrightarrow>
     cfg s' = cfg s \<and> graph s' = graph s \<and> obstacles s' = obstacles s
     \<and> initialized s' = initialized s \<and> best_teb s' = best_teb s
     \<and> rnd_generator s' = rnd_generator s"



text \<open>
  The test of the obstacle loop of \<^verbatim>\<open>createGraph\<close>: the obstacle is placed in front
  of the start point. \<open>diff\<close> is the normalised direction from start to goal.
\<close>

definition in_front_of :: "('teb, 'obst) collab \<Rightarrow> Vector2d \<Rightarrow> Vector2d \<Rightarrow> 'obst \<Rightarrow> bool" where
  "in_front_of E start_pos diff ob =
     (let start2obst = vsub (getCentroid E ob) start_pos;
          dist = vnorm start2obst
      in \<not> (dist \<noteq> 0 \<and> vdot start2obst diff / dist < 0.1))"

definition placed_in_front :: "('teb, 'obst) collab \<Rightarrow> PoseSE2 \<Rightarrow> PoseSE2 \<Rightarrow> 'obst \<Rightarrow> bool" where
  "placed_in_front E start goal ob =
     in_front_of E (position start) (vnormalize (vsub (position goal) (position start))) ob"

text \<open>The clearance-scaled normal to the direction from start to goal, and the two keypoints
  of an obstacle.\<close>

definition keypoint_normal :: "PoseSE2 \<Rightarrow> PoseSE2 \<Rightarrow> real \<Rightarrow> Vector2d" where
  "keypoint_normal start goal dist_to_obst =
     (let diff = vsub (position goal) (position start)
      in vscale dist_to_obst (vnormalize (- snd diff, fst diff)))"

definition keypoints :: "('teb, 'obst) collab \<Rightarrow> PoseSE2 \<Rightarrow> PoseSE2 \<Rightarrow> real \<Rightarrow> 'obst \<Rightarrow> Vector2d list" where
  "keypoints E start goal dist_to_obst ob =
     [vadd (getCentroid E ob) (keypoint_normal start goal dist_to_obst),
      vsub (getCentroid E ob) (keypoint_normal start goal dist_to_obst)]"

section \<open>A concrete scenario\<close>

text \<open>
  Collaborators for running the planner on concrete inputs: obstacles are points with
  the city-block distance, a candidate carries its poses, its cost vector, whether it
  is a backwards detour, and its velocity command.
\<close>

record demo_teb =
  demo_poses :: "PoseSE2 list"
  demo_cost :: "real list"
  demo_detour :: bool
  demo_vel :: Vector2d

definition demo_env :: "(demo_teb, Vector2d) collab" where
  "demo_env =
     \<lparr>getCentroid = (\<lambda>ob. ob),
      getMinimumDistance = (\<lambda>ob p. \<bar>fst p - fst ob\<bar> + \<bar>snd p - snd ob\<bar>),
      checkLineIntersection = (\<lambda>ob p q clearance. False),
      checkCollision = (\<lambda>ob p clearance. \<bar>fst p - fst ob\<bar> + \<bar>snd p - snd ob\<bar> < clearance),
      calculateHSignature = (\<lambda>path obs prescaler. Complex (sum_list (map snd path)) 0),
      poses = demo_poses,
      findClosestTrajectoryPose = (\<lambda>t p. 0),
      detectDetoursBackwards = (\<lambda>t threshold. demo_detour t),
      getCurrentCost = demo_cost,
      teb_getVelocityCommand = demo_vel,
      updateAndPruneTEB = (\<lambda>t start goal. t),
      setVelocityStart = (\<lambda>t v. t),
      optimizeTEB = (\<lambda>t inner outer compute_cost. t),
      initTEBtoGoal = (\<lambda>path start_orientation goal_orientation.
         \<lparr>demo_poses = map (\<lambda>p. \<lparr>position = p, theta = start_orientation\<rparr>) path,
          demo_cost = [1], demo_detour = False, demo_vel = (0, 0)\<rparr>),
      rnd_uniform = (\<lambda>k. 1 / 2),
      ros_ok = (\<lambda>k. True)\<rparr>"

definition demo_cfg :: TebConfig where
  "demo_cfg =
     \<lparr>xy_goal_tolerance = 1 / 5, min_obstacle_dist = 1 / 2, no_inner_iterations = 5,
      no_outer_iterations = 4, enable_multithreading = False, simple_exploration = True,
      max_number_classes = 2, roadmap_graph_no_samples = 1, roadmap_graph_area_width = 6,
      h_signature_prescaler = 1, h_signature_threshold = 1 / 10,
      obstacle_heading_threshold = pi / 2\<rparr>"

definition demo_planner :: "(demo_teb, Vector2d) planner" where
  "demo_planner =
     \<lparr>cfg = demo_cfg, obstacles = Some [], initialized = True, graph = empty_graph,
      tebs = [], best_teb = None, h_signatures = [], rnd_generator = 0\<rparr>"

definition demo_band :: "real \<Rightarrow> real list \<Rightarrow> bool \<Rightarrow> demo_teb" where
  "demo_band y c d =
     \<lparr>demo_poses = [\<lparr>position = (0, 0), theta = 0\<rparr>, \<lparr>position = (1, y), theta = 0\<rparr>,
                    \<lparr>position = (2, 0), theta = 0\<rparr>],
      demo_cost = c, demo_detour = d, demo_vel = (1, 0)\<rparr>"




definition demo_start :: PoseSE2 where
  "demo_start = \<lparr>position = (0, 0), theta = 0\<rparr>"

definition demo_goal :: PoseSE2 where
  "demo_goal = \<lparr>position = (2, 0), theta = 0\<rparr>"

text \<open>
  A scene with one obstacle between start and goal, the graph the deterministic builder
  makes of it, and the candidate the demo optimiser initialises along a path.
\<close>

definition demo_scene :: "(demo_teb, Vector2d) planner" where
  "demo_scene = demo_planner\<lparr>obstacles := Some [(1, 0)]\<rparr>"

definition demo_new_band :: "Vector2d list \<Rightarrow> demo_teb" where
  "demo_new_band path =
     \<lparr>demo_poses = map (\<lambda>p. \<lparr>position = p, theta = 0\<rparr>) path, demo_cost = [1],
      demo_detour = False, demo_vel = (0, 0)\<rparr>"

definition demo_scene_graph :: HcGraph where
  "demo_scene_graph =
     \<lparr>vertex_pos = [(0, 0), (1, 1 / 2), (1, - 1 / 2), (2, 0)],
      edges = [(0, 1), (0, 2), (0, 3), (1, 3), (2, 3)]\<rparr>"



section \<open>Verified properties\<close>

subsection \<open>The class registry\<close>

lemma h_found_iff: "h_found threshold H hs \<longleftrightarrow> (\<exists>h \<in> set hs. h_close threshold h H)"
  by (induction hs) auto



lemma h_close_sym: "h_close th a b = h_close th b a"
  by (auto simp: h_close_def abs_minus_commute)

lemma add_far: "sorted_wrt (\<lambda>a b. \<not> h_close th a b) (h_signatures s) \<Longrightarrow>
   sorted_wrt (\<lambda>a b. \<not> h_close th a b) (h_signatures (snd (addNewHSignatureIfNew H th s)))"
  by (auto simp: addNewHSignatureIfNew_def h_found_iff sorted_wrt_append)

lemma register_all_far: "sorted_wrt (\<lambda>a b. \<not> h_close th a b) (h_signatures s) \<Longrightarrow>
   sorted_wrt (\<lambda>a b. \<not> h_close th a b) (h_signatures (register_all th Hs s))"
  unfolding register_all_def
  by (induction Hs arbitrary: s) (auto intro: add_far)

lemma demo_register:
  "h_signatures (register_all (1 / 10) [Complex 0 0, Complex (1 / 20) 0, Complex 1 0] demo_planner)
     = [Complex 0 0, Complex 1 0]"
  by (simp add: register_all_def addNewHSignatureIfNew_def h_close_def demo_planner_def)

text \<open>
  Claim C5. After any sequence of calls of \<^verbatim>\<open>addNewHSignatureIfNew\<close> with one
  threshold, started on an empty registry, any two different entries of the registry
  differ by more than the threshold in the real part or in the imaginary part.
\<close>

theorem registry_entries_apart:
  assumes "h_signatures s = []"
    and "i < length (h_signatures (register_all threshold Hs s))"
    and "j < length (h_signatures (register_all threshold Hs s))"
    and "i \<noteq> j"
  shows "threshold < \<bar>Re (h_signatures (register_all threshold Hs s) ! i)
                        - Re (h_signatures (register_all threshold Hs s) ! j)\<bar>
       \<or> threshold < \<bar>Im (h_signatures (register_all threshold Hs s) ! i)
                        - Im (h_signatures (register_all threshold Hs s) ! j)\<bar>"
proof -
  let ?hs = "h_signatures (register_all threshold Hs s)"
  have far: "sorted_wrt (\<lambda>a b. \<not> h_close threshold a b) ?hs"
    using assms(1) by (intro register_all_far) simp
  have "\<not> h_close threshold (?hs ! i) (?hs ! j)"
  proof (cases "i < j")
    case True
    then show ?thesis using far assms(3) by (simp add: sorted_wrt_iff_nth_less)
  next
    case False
    then have "j < i" using assms(4) by simp
    then have "\<not> h_close threshold (?hs ! j) (?hs ! i)"
      using far assms(2) by (simp add: sorted_wrt_iff_nth_less)
    then show ?thesis by (simp add: h_close_sym)
  qed
  then show ?thesis by (auto simp: h_close_def Let_def)
qed

theorem registry_entries_apart_witness:
  "h_signatures demo_planner = []
   \<and> (1 / 10 < \<bar>Re (h_signatures (register_all (1 / 10)
                        [Complex 0 0, Complex (1 / 20) 0, Complex 1 0] demo_planner) ! 0)
                - Re (h_signatures (register_all (1 / 10)
                        [Complex 0 0, Complex (1 / 20) 0, Complex 1 0] demo_planner) ! 1)\<bar>
      \<or> 1 / 10 < \<bar>Im (h_signatures (register_all (1 / 10)
                        [Complex 0 0, Complex (1 / 20) 0, Complex 1 0] demo_planner) ! 0)
                - Im (h_signatures (register_all (1 / 10)
                        [Complex 0 0, Complex (1 / 20) 0, Complex 1 0] demo_planner) ! 1)\<bar>)"
proof -
  have e: "h_signatures demo_planner = []" by (simp add: demo_planner_def)
  show ?thesis
    using e registry_entries_apart [OF e, of 0 "1 / 10" "[Complex 0 0, Complex (1 / 20) 0, Complex 1 0]" 1]
    by (simp add: demo_register)
qed

subsection \<open>Selection\<close>



lemma DBL_MAX_big: "1000 < DBL_MAX"
  by (simp add: DBL_MAX_def)




subsection \<open>Detour cleanup\<close>

lemma detour_loop_nonempty:
  "kept \<noteq> [] \<or> rest \<noteq> [] \<Longrightarrow> detour_loop E th kept rest \<noteq> []"
  by (induction rest arbitrary: kept) auto

lemma detour_loop_kept:
  "t \<in> set kept \<Longrightarrow> t \<in> set (detour_loop E th kept rest)"
  by (induction rest arbitrary: kept) simp_all

lemma detour_loop_removed:
  "t \<in> set rest \<Longrightarrow> t \<notin> set (detour_loop E th kept rest) \<Longrightarrow>
     detectDetoursBackwards E t th"
proof (induction rest arbitrary: kept)
  case Nil
  then show ?case by simp
next
  case (Cons a rest)
  show ?case
  proof (cases "length kept + length (a # rest) > 1 \<and> detectDetoursBackwards E a th")
    case True
    then show ?thesis using Cons.prems Cons.IH [of kept] by auto
  next
    case False
    then have res: "detour_loop E th kept (a # rest) = detour_loop E th (kept @ [a]) rest"
      by auto
    have "t \<noteq> a"
      using Cons.prems(2) detour_loop_kept [of a "kept @ [a]" E th rest] res by auto
    then show ?thesis using Cons.prems Cons.IH [of "kept @ [a]"] res by auto
  qed
qed

text \<open>
  Claim C6. \<^verbatim>\<open>deleteTebDetours(threshold)\<close> never empties the pool: a pool that is not
  empty before the call is not empty after it, a sole candidate is retained whether or
  not it is a backwards detour, and a candidate is removed only when it is a backwards
  detour and the pool holds more than one candidate.
\<close>

theorem deleteTebDetours_keeps_pool:
  "(tebs s \<noteq> [] \<longrightarrow> tebs (deleteTebDetours E threshold s) \<noteq> [])
   \<and> (\<forall>t. tebs s = [t] \<longrightarrow> tebs (deleteTebDetours E threshold s) = [t])
   \<and> (\<forall>t \<in> set (tebs s). t \<notin> set (tebs (deleteTebDetours E threshold s))
         \<longrightarrow> detectDetoursBackwards E t threshold \<and> 1 < length (tebs s))"
proof (intro conjI allI impI ballI)
  assume "tebs s \<noteq> []"
  then show "tebs (deleteTebDetours E threshold s) \<noteq> []"
    by (simp add: deleteTebDetours_def detour_loop_nonempty)
next
  fix t assume "tebs s = [t]"
  then show "tebs (deleteTebDetours E threshold s) = [t]"
    by (simp add: deleteTebDetours_def)
next
  fix t assume "t \<in> set (tebs s)" "t \<notin> set (tebs (deleteTebDetours E threshold s))"
  then show "detectDetoursBackwards E t threshold"
    using detour_loop_removed [of t "tebs s" E threshold "[]"]
    by (simp add: deleteTebDetours_def)
next
  fix t assume a: "t \<in> set (tebs s)" "t \<notin> set (tebs (deleteTebDetours E threshold s))"
  show "1 < length (tebs s)"
  proof (rule ccontr)
    assume "\<not> 1 < length (tebs s)"
    with a(1) have "tebs s = [t]" by (cases "tebs s") auto
    then have "tebs (deleteTebDetours E threshold s) = [t]"
      by (simp add: deleteTebDetours_def)
    with a(2) show False by simp
  qed
qed

theorem deleteTebDetours_keeps_pool_witness:
  "tebs (demo_planner\<lparr>tebs := [demo_band 1 [1] True, demo_band 1 [2] True]\<rparr>) \<noteq> []
   \<and> tebs (deleteTebDetours demo_env 0
             (demo_planner\<lparr>tebs := [demo_band 1 [1] True, demo_band 1 [2] True]\<rparr>)) \<noteq> []
   \<and> tebs (deleteTebDetours demo_env 0 (demo_planner\<lparr>tebs := [demo_band 1 [1] True]\<rparr>))
       = [demo_band 1 [1] True]"
  using deleteTebDetours_keeps_pool [of "demo_planner\<lparr>tebs := [demo_band 1 [1] True, demo_band 1 [2] True]\<rparr>" demo_env 0]
    deleteTebDetours_keeps_pool [of "demo_planner\<lparr>tebs := [demo_band 1 [1] True]\<rparr>" demo_env 0]
  by simp

subsection \<open>Command and feasibility\<close>

text \<open>
  Claim C7. When there is no best candidate, \<^verbatim>\<open>getVelocityCommand\<close> returns the zero
  vector and \<^verbatim>\<open>isTrajectoryFeasible\<close> returns false, whatever the costmap oracle, the
  footprint, the radii and the look-ahead index are; and selection on an empty pool
  leaves no best candidate.
\<close>

theorem no_best_teb_zero_command_infeasible:
  "(best_teb s = None \<longrightarrow>
      getVelocityCommand E s = Zero2d
      \<and> isTrajectoryFeasible E footprintCost footprint_spec inscribed_radius circumscribed_radius
           look_ahead_idx s = Some False)
   \<and> (tebs s = [] \<longrightarrow>
        fst (selectBestTeb E s) = None
        \<and> getVelocityCommand E (snd (selectBestTeb E s)) = Zero2d
        \<and> isTrajectoryFeasible E footprintCost footprint_spec inscribed_radius circumscribed_radius
             look_ahead_idx (snd (selectBestTeb E s)) = Some False)"
  by (simp add: getVelocityCommand_def isTrajectoryFeasible_def selectBestTeb_def Let_def)

theorem no_best_teb_zero_command_infeasible_witness:
  "best_teb demo_planner = None
   \<and> tebs demo_planner = []
   \<and> getVelocityCommand demo_env demo_planner = Zero2d
   \<and> isTrajectoryFeasible demo_env (\<lambda>x y th fp ri rc. - 1) () 1 2 3 demo_planner = Some False
   \<and> getVelocityCommand demo_env (snd (selectBestTeb demo_env demo_planner)) = Zero2d
   \<and> isTrajectoryFeasible demo_env (\<lambda>x y th fp ri rc. 1) () 1 2 3
        (snd (selectBestTeb demo_env demo_planner)) = Some False"
proof -
  have e: "best_teb demo_planner = None" "tebs demo_planner = []"
    by (simp_all add: demo_planner_def)
  show ?thesis
    using e no_best_teb_zero_command_infeasible [of demo_planner demo_env "\<lambda>x y th fp ri rc. - 1" "()" 1 2 3]
      no_best_teb_zero_command_infeasible [of demo_planner demo_env "\<lambda>x y th fp ri rc. 1" "()" 1 2 3]
    by simp
qed

lemma feasible_loop_run:
  fixes la i :: "32 word"
  assumes "unat la < length ps" and "unat la < 2 ^ 31"
  shows "unat i \<le> unat la + 1 \<Longrightarrow>
     feasible_loop cost ps la i = Some (\<forall>k. unat i \<le> k \<and> k \<le> unat la \<longrightarrow> 0 \<le> cost (ps ! k))"
proof (induction "unat la + 1 - unat i" arbitrary: i)
  case 0
  then have "unat i = unat la + 1" by simp
  then have "\<not> i \<le> la" by (simp add: word_le_nat_alt)
  then show ?case using \<open>unat i = unat la + 1\<close>
    by (subst feasible_loop.simps) auto
next
  case (Suc n)
  then have le: "i \<le> la" by (simp add: word_le_nat_alt)
  then have lt: "unat i < length ps" using assms(1) by (simp add: word_le_nat_alt)
  have "unat i < 2 ^ 31" using le assms(2) by (simp add: word_le_nat_alt)
  then have suc: "unat (i + 1) = unat i + 1"
    by (simp add: unat_add_lem [THEN iffD1])
  show ?case
  proof (cases "cost (ps ! unat i) < 0")
    case True
    have "\<not> (\<forall>k. unat i \<le> k \<and> k \<le> unat la \<longrightarrow> 0 \<le> cost (ps ! k))"
      using True le by (auto simp: word_le_nat_alt not_le intro!: exI [of _ "unat i"])
    then show ?thesis using True le lt by (subst feasible_loop.simps) simp
  next
    case False
    have "feasible_loop cost ps la (i + 1)
            = Some (\<forall>k. unat (i + 1) \<le> k \<and> k \<le> unat la \<longrightarrow> 0 \<le> cost (ps ! k))"
      using Suc.hyps(2) Suc.prems suc le by (intro Suc.hyps(1)) (auto simp: word_le_nat_alt)
    moreover have "(\<forall>k. unat i + 1 \<le> k \<and> k \<le> unat la \<longrightarrow> 0 \<le> cost (ps ! k))
              = (\<forall>k. unat i \<le> k \<and> k \<le> unat la \<longrightarrow> 0 \<le> cost (ps ! k))"
      using False by (metis Suc_eq_plus1 Suc_leI le_neq_implies_less not_less order_less_imp_le
          not_less_eq_eq)
    ultimately show ?thesis using False le lt suc by (subst feasible_loop.simps) simp
  qed
qed

lemma unat_of_nat_int_range: "0 < n \<Longrightarrow> n < 2 ^ 31 \<Longrightarrow> unat (word_of_nat n :: 32 word) = n"
  by (simp add: unat_of_nat)

lemma sint_of_nat_int_range: "0 < n \<Longrightarrow> n < 2 ^ 31 \<Longrightarrow> sint (word_of_nat n :: 32 word) = int n"
  by (simp add: signed_of_nat signed_take_bit_int_eq_self)

lemma unat_of_nat_pred: "0 < n \<Longrightarrow> n < 2 ^ 31 \<Longrightarrow> unat ((word_of_nat n :: 32 word) - 1) = n - 1"
  by (metis less_not_refl unat_of_nat_int_range unat_minus_one unsigned_0)

lemma unat_of_nonneg_sint:
  fixes la :: "32 word"
  assumes "0 \<le> sint la"
  shows "unat la = nat (sint la)"
proof -
  have "sint la < 2 ^ 31" using sint_less [of la] by simp
  then have "sint la < 2 ^ 32" by simp
  then have "take_bit 32 (sint la) = sint la"
    using assms by (simp add: take_bit_int_eq_self)
  then have "uint la = sint la" using uint_sint [of la] by simp
  then show ?thesis by (simp add: unat_eq_nat_uint)
qed

lemma clamp_word:
  fixes la :: "32 word"
  assumes "0 < n" "n < 2 ^ 31"
  shows "unat (if la <s 0 \<or> (word_of_nat n :: 32 word) \<le>s la then word_of_nat n - 1 else la)
           = clamp_idx n la"
  using assms by (auto simp: clamp_idx_def word_sless_alt word_sle_eq sint_of_nat_int_range
      unat_of_nat_pred unat_of_nonneg_sint)

text \<open>
  Claim C10. With a best candidate whose band has at least one pose (and fewer than
  \<open>2 ^ 31\<close>, so that the count fits a C \<^verbatim>\<open>int\<close>), \<^verbatim>\<open>isTrajectoryFeasible\<close> clamps a
  \<^verbatim>\<open>look_ahead_idx\<close> that is negative or not below the number of poses to the last
  pose index, and returns whether every pose at the indices \<open>0\<close> to
  \<^verbatim>\<open>look_ahead_idx\<close> inclusive has a footprint cost that is not negative: false when
  one of them has a negative cost, true otherwise.
\<close>

theorem isTrajectoryFeasible_clamped_walk:
  assumes "best_teb s = Some best" and "0 < length (poses E best)"
    and "length (poses E best) < 2 ^ 31"
  shows "isTrajectoryFeasible E footprintCost footprint_spec inscribed_radius circumscribed_radius
           look_ahead_idx s
         = Some (\<forall>k \<le> clamp_idx (length (poses E best)) look_ahead_idx.
                   0 \<le> footprintCost (pose_x (poses E best ! k)) (pose_y (poses E best ! k))
                         (theta (poses E best ! k)) footprint_spec inscribed_radius
                         circumscribed_radius)"
proof -
  let ?n = "length (poses E best)"
  let ?idx = "if look_ahead_idx <s 0 \<or> (word_of_nat ?n :: 32 word) \<le>s look_ahead_idx
              then word_of_nat ?n - 1 else look_ahead_idx"
  have idx: "unat ?idx = clamp_idx ?n look_ahead_idx"
    using assms(2,3) by (rule clamp_word)
  have "clamp_idx ?n look_ahead_idx < ?n"
    using assms(2) by (auto simp: clamp_idx_def)
  then have b1: "unat ?idx < ?n" and b2: "unat ?idx < 2 ^ 31"
    using idx assms(3) by linarith+
  show ?thesis
    using feasible_loop_run [OF b1 b2, of 0] assms(1) idx
    by (simp add: isTrajectoryFeasible_def Let_def)
qed

theorem isTrajectoryFeasible_clamped_walk_witness:
  "best_teb (demo_planner\<lparr>best_teb := Some (demo_band 1 [1] False)\<rparr>) = Some (demo_band 1 [1] False)
   \<and> 0 < length (poses demo_env (demo_band 1 [1] False))
   \<and> length (poses demo_env (demo_band 1 [1] False)) < 2 ^ 31
   \<and> isTrajectoryFeasible demo_env (\<lambda>x y th fp ri rc. y - 1 / 2) () 1 2 (- 1)
        (demo_planner\<lparr>best_teb := Some (demo_band 1 [1] False)\<rparr>) = Some False
   \<and> isTrajectoryFeasible demo_env (\<lambda>x y th fp ri rc. 1 / 2 - y) () 1 2 0
        (demo_planner\<lparr>best_teb := Some (demo_band 1 [1] False)\<rparr>) = Some True"
proof -
  let ?s = "demo_planner\<lparr>best_teb := Some (demo_band 1 [1] False)\<rparr>"
  have h: "best_teb ?s = Some (demo_band 1 [1] False)"
    "0 < length (poses demo_env (demo_band 1 [1] False))"
    "length (poses demo_env (demo_band 1 [1] False)) < 2 ^ 31"
    by (simp_all add: demo_env_def demo_band_def)
  have c: "clamp_idx (Suc (Suc (Suc 0))) (- 1) = 2" "clamp_idx (Suc (Suc (Suc 0))) 0 = 0"
    by (simp_all add: clamp_idx_def)
  have a2: "(\<forall>k \<le> 2. P k) = (P 0 \<and> P 1 \<and> P (2 :: nat))" for P
    by (auto simp: le_Suc_eq numeral_2_eq_2)
  show ?thesis
    using h isTrajectoryFeasible_clamped_walk [OF h, of "\<lambda>x y th fp ri rc. y - 1 / 2" "()" 1 2 "- 1"]
      isTrajectoryFeasible_clamped_walk [OF h, of "\<lambda>x y th fp ri rc. 1 / 2 - y" "()" 1 2 0]
    by (simp add: demo_env_def demo_band_def c a2 pose_x_def pose_y_def)
qed

text \<open>
  A band without a pose is outside the premise of a last pose index: the clamped bound
  wraps to the largest unsigned value and the loop reads pose \<open>0\<close>, which does not
  exist.
\<close>

lemma isTrajectoryFeasible_empty_band:
  assumes "best_teb s = Some best" and "poses E best = []"
  shows "isTrajectoryFeasible E footprintCost footprint_spec inscribed_radius circumscribed_radius
           look_ahead_idx s = None"
proof -
  have "look_ahead_idx <s 0 \<or> 0 \<le>s look_ahead_idx"
    by (auto simp: word_sless_alt word_sle_eq)
  then show ?thesis
    using assms by (simp add: isTrajectoryFeasible_def Let_def feasible_loop.simps)
qed

subsection \<open>Path enumeration keeps the members it does not own\<close>

lemma same_frame_refl: "same_frame s s"
  by (simp add: same_frame_def)

lemma same_frame_trans: "same_frame s s1 \<Longrightarrow> same_frame s1 s2 \<Longrightarrow> same_frame s s2"
  by (simp add: same_frame_def)

lemma addNew_frame: "same_frame s (snd (addNewHSignatureIfNew H th s))"
  by (simp add: addNewHSignatureIfNew_def same_frame_def)

lemma addNew_tebs: "tebs (snd (addNewHSignatureIfNew H th s)) = tebs s"
  by (simp add: addNewHSignatureIfNew_def)

lemma DepthFirst_goal_frame:
  "same_frame s (DepthFirst_goal E visited goal so go vs s)"
  by (induction vs)
    (auto simp: Let_def addAndInitNewTeb_def addNewHSignatureIfNew_def same_frame_def)

lemma DepthFirst_goal_length:
  "length (tebs (DepthFirst_goal E visited goal so go vs s)) \<le> Suc (length (tebs s))"
  by (induction vs) (auto simp: Let_def addAndInitNewTeb_def addNewHSignatureIfNew_def)

lemma DepthFirst_frame: "same_frame s (DepthFirst E g visited goal so go s)"
proof (induction E g visited goal so go s rule: DepthFirst.induct)
  case (1 E g visited goal so go s)
  show ?case
  proof (cases "max_number_classes (cfg s) \<le> int (length (tebs s))")
    case True
    then show ?thesis by (subst DepthFirst.simps) (simp add: same_frame_refl)
  next
    case False
    let ?s1 = "DepthFirst_goal E visited goal so go (adjacent_vertices (last visited) g) s"
    let ?f = "\<lambda>v st. if v \<in> set visited \<or> v = goal then st
                       else DepthFirst E g (visited @ [v]) goal so go st"
    have "same_frame s (fold ?f (adjacent_vertices (last visited) g) ?s1)"
    proof (rule fold_invariant [where Q = "\<lambda>v. v \<in> set (adjacent_vertices (last visited) g)"
          and P = "same_frame s"])
      show "same_frame s ?s1" by (rule DepthFirst_goal_frame)
    next
      fix v st
      assume v: "v \<in> set (adjacent_vertices (last visited) g)" and st: "same_frame s st"
      show "same_frame s (?f v st)"
      proof (cases "v \<in> set visited \<or> v = goal")
        case True
        then show ?thesis using st by simp
      next
        case nv: False
        have "same_frame st (DepthFirst E g (visited @ [v]) goal so go st)"
          using "1.IH" [OF False refl refl v nv] .
        then show ?thesis using nv st by (auto intro: same_frame_trans)
      qed
    qed simp
    then show ?thesis using False by (subst DepthFirst.simps) (simp add: Let_def)
  qed
qed

lemma DepthFirst_bound:
  fixes s :: "('teb, 'obst) planner"
  shows "int (length (tebs s)) \<le> B \<Longrightarrow> max_number_classes (cfg s) \<le> B \<Longrightarrow>
     int (length (tebs (DepthFirst E g visited goal so go s))) \<le> B"
proof (induction E g visited goal so go s rule: DepthFirst.induct)
  case (1 E g visited goal so go s)
  show ?case
  proof (cases "max_number_classes (cfg s) \<le> int (length (tebs s))")
    case True
    then show ?thesis using "1.prems" by (subst DepthFirst.simps) simp
  next
    case False
    let ?s1 = "DepthFirst_goal E visited goal so go (adjacent_vertices (last visited) g) s"
    let ?f = "\<lambda>v st. if v \<in> set visited \<or> v = goal then st
                       else DepthFirst E g (visited @ [v]) goal so go st"
    let ?P = "\<lambda>st :: ('teb, 'obst) planner. cfg st = cfg s \<and> int (length (tebs st)) \<le> B"
    have "?P (fold ?f (adjacent_vertices (last visited) g) ?s1)"
    proof (rule fold_invariant [where Q = "\<lambda>v. v \<in> set (adjacent_vertices (last visited) g)"
          and P = ?P])
      have "int (length (tebs ?s1)) \<le> int (length (tebs s)) + 1"
        using DepthFirst_goal_length [of E visited goal so go "adjacent_vertices (last visited) g" s]
        by linarith
      then show "?P ?s1"
        using False "1.prems"(2) DepthFirst_goal_frame [of s E visited goal so go]
        by (simp add: same_frame_def)
    next
      fix v and st :: "('teb, 'obst) planner"
      assume v: "v \<in> set (adjacent_vertices (last visited) g)" and st: "?P st"
      show "?P (?f v st)"
      proof (cases "v \<in> set visited \<or> v = goal")
        case True
        then show ?thesis using st by simp
      next
        case nv: False
        have "int (length (tebs (DepthFirst E g (visited @ [v]) goal so go st))) \<le> B"
          using "1.IH" [OF False refl refl v nv] st "1.prems"(2) by simp
        moreover have "cfg (DepthFirst E g (visited @ [v]) goal so go st) = cfg st"
          using DepthFirst_frame [of st E g "visited @ [v]" goal so go]
          by (simp add: same_frame_def)
        ultimately show ?thesis using nv st by simp
      qed
    qed simp
    then show ?thesis using False by (subst DepthFirst.simps) (simp add: Let_def)
  qed
qed

lemma DepthFirst_budget_spent:
  "max_number_classes (cfg s) \<le> int (length (tebs s)) \<Longrightarrow>
     DepthFirst E g visited goal so go s = s"
  by (subst DepthFirst.simps) simp


subsection \<open>Re-analysis of the old candidates\<close>



lemma renew_scan_null_empty:
  "renew_scan E c obs dd kept [] cands = Some (kept, cands)"
  by simp


lemma renew_scan_subset:
  "renew_scan E c obs dd kept rest cands = Some r \<Longrightarrow>
     set (fst r) \<subseteq> set kept \<union> set rest \<and> length (fst r) \<le> length kept + length rest"
proof (induction rest arbitrary: kept cands)
  case Nil
  then show ?case by auto
next
  case (Cons t rest)
  show ?case
  proof (cases "dd \<and> length kept + length (t # rest) > 1
           \<and> detectDetoursBackwards E t (cos (obstacle_heading_threshold c))")
    case True
    then have "renew_scan E c obs dd kept rest cands = Some r"
      using Cons.prems by simp
    from Cons.IH [OF this] show ?thesis by auto
  next
    case False
    then obtain os where os: "obs = Some os"
      using Cons.prems by (cases obs) auto
    show ?thesis
    proof (cases "near_loop E t os False")
      case True
      then have "renew_scan E c obs dd kept rest cands = Some r"
        using Cons.prems False os by auto
      from Cons.IH [OF this] show ?thesis by auto
    next
      case nn: False
      then have "renew_scan E c obs dd (kept @ [t]) rest
                   (cands @ [(t, calculateHSignature E (map position (poses E t)) obs
                                   (h_signature_prescaler c))]) = Some r"
        using Cons.prems False os by (auto simp: Let_def)
      from Cons.IH [OF this] show ?thesis by auto
    qed
  qed
qed

lemma renew_dedup_subset:
  "set (fst (renew_dedup E ts cands i)) \<subseteq> set ts
   \<and> length (fst (renew_dedup E ts cands i)) \<le> length ts"
proof (induction E ts cands i rule: renew_dedup.induct)
  case (1 E ts cands i)
  let ?j = "find_if (\<lambda>c. compareH c (snd (cands ! i))) cands"
  show ?case
  proof (cases "i < length cands")
    case False
    then have "renew_dedup E ts cands i = (ts, cands)"
      by (subst renew_dedup.simps) simp
    then show ?thesis by simp
  next
    case il: True
    show ?thesis
    proof (cases "?j \<noteq> length cands \<and> ?j \<noteq> i")
      case False
      then have "renew_dedup E ts cands i = renew_dedup E ts cands (i + 1)"
        using il by (subst renew_dedup.simps) (auto simp: Let_def)
      then show ?thesis using "1.IH"(3) [OF il refl False] by simp
    next
      case jj: True
      show ?thesis
      proof (cases "sum_list (getCurrentCost E (fst (cands ! i)))
                      < sum_list (getCurrentCost E (fst (cands ! ?j)))")
        case True
        have l: "length (remove1 (fst (cands ! ?j)) ts) \<le> length ts"
          by (simp add: length_remove1)
        have m: "set (remove1 (fst (cands ! ?j)) ts) \<subseteq> set ts"
          by (rule set_remove1_subset)
        have "renew_dedup E ts cands i
                = renew_dedup E (remove1 (fst (cands ! ?j)) ts) (erase_at ?j cands) i"
          using il jj True by (subst renew_dedup.simps) (simp add: Let_def)
        then show ?thesis using "1.IH"(1) [OF il refl jj True] l m
          by (simp only:) (meson order_trans)
      next
        case False
        have l: "length (remove1 (fst (cands ! i)) ts) \<le> length ts"
          by (simp add: length_remove1)
        have m: "set (remove1 (fst (cands ! i)) ts) \<subseteq> set ts"
          by (rule set_remove1_subset)
        have "renew_dedup E ts cands i
                = renew_dedup E (remove1 (fst (cands ! i)) ts) (erase_at i cands) i"
          using il jj False by (subst renew_dedup.simps) (simp add: Let_def)
        then show ?thesis using "1.IH"(2) [OF il refl jj False] l m
          by (simp only:) (meson order_trans)
      qed
    qed
  qed
qed

lemma renew_register_frame:
  "same_frame s (renew_register cands s)"
proof (induction cands arbitrary: s)
  case Nil
  then show ?case by (simp add: same_frame_refl)
next
  case (Cons c cands)
  let ?s1 = "if \<not> fst (addNewHSignatureIfNew (snd c) (h_signature_threshold (cfg s)) s)
             then (snd (addNewHSignatureIfNew (snd c) (h_signature_threshold (cfg s)) s))
                    \<lparr>tebs := remove1 (fst c)
                       (tebs (snd (addNewHSignatureIfNew (snd c) (h_signature_threshold (cfg s)) s)))\<rparr>
             else snd (addNewHSignatureIfNew (snd c) (h_signature_threshold (cfg s)) s)"
  have a: "same_frame s ?s1"
    by (simp add: addNewHSignatureIfNew_def same_frame_def)
  have b: "same_frame ?s1 (renew_register cands ?s1)" by (rule Cons.IH)
  have "renew_register (c # cands) s = renew_register cands ?s1"
    by (simp add: Let_def)
  then show ?case using same_frame_trans [OF a b] by simp
qed

lemma renew_register_subset:
  "set (tebs (renew_register cands s)) \<subseteq> set (tebs s)
   \<and> length (tebs (renew_register cands s)) \<le> length (tebs s)"
proof (induction cands arbitrary: s)
  case Nil
  then show ?case by simp
next
  case (Cons c cands)
  let ?s1 = "if \<not> fst (addNewHSignatureIfNew (snd c) (h_signature_threshold (cfg s)) s)
             then (snd (addNewHSignatureIfNew (snd c) (h_signature_threshold (cfg s)) s))
                    \<lparr>tebs := remove1 (fst c)
                       (tebs (snd (addNewHSignatureIfNew (snd c) (h_signature_threshold (cfg s)) s)))\<rparr>
             else snd (addNewHSignatureIfNew (snd c) (h_signature_threshold (cfg s)) s)"
  have "set (tebs ?s1) \<subseteq> set (tebs s)"
    using set_remove1_subset [of "fst c" "tebs s"] by (auto simp: addNewHSignatureIfNew_def)
  moreover have "length (tebs ?s1) \<le> length (tebs s)"
    by (simp add: addNewHSignatureIfNew_def length_remove1)
  moreover have "set (tebs (renew_register cands ?s1)) \<subseteq> set (tebs ?s1)
     \<and> length (tebs (renew_register cands ?s1)) \<le> length (tebs ?s1)" by (rule Cons.IH)
  moreover have "renew_register (c # cands) s = renew_register cands ?s1"
    by (simp add: Let_def)
  ultimately show ?case by (simp only:) (meson order_trans)
qed

lemma renew_result:
  assumes "renewAndAnalyzeOldTebs E dd s = Some s'"
  shows "same_frame s s'" and "set (tebs s') \<subseteq> set (tebs s)"
    and "length (tebs s') \<le> length (tebs s)"
proof -
  from assms obtain sc where sc: "renew_scan E (cfg s) (obstacles s) dd [] (tebs s) [] = Some sc"
    and s': "s' = renew_register (snd (renew_dedup E (fst sc) (snd sc) 0))
                   (s\<lparr>h_signatures := [], tebs := fst (renew_dedup E (fst sc) (snd sc) 0)\<rparr>)"
    by (auto simp: renewAndAnalyzeOldTebs_def Let_def split: option.splits)
  let ?d = "renew_dedup E (fst sc) (snd sc) 0"
  let ?s0 = "s\<lparr>h_signatures := [], tebs := fst ?d\<rparr>"
  have "same_frame s ?s0" by (simp add: same_frame_def)
  then show "same_frame s s'"
    unfolding s' using renew_register_frame [of ?s0] by (rule same_frame_trans)
  have a: "set (fst sc) \<subseteq> set (tebs s)" "length (fst sc) \<le> length (tebs s)"
    using renew_scan_subset [OF sc] by auto
  have b: "set (fst ?d) \<subseteq> set (fst sc)" "length (fst ?d) \<le> length (fst sc)"
    using renew_dedup_subset [of E "fst sc" "snd sc" 0] by auto
  have c: "set (tebs s') \<subseteq> set (fst ?d)" "length (tebs s') \<le> length (fst ?d)"
    unfolding s' using renew_register_subset [of _ ?s0] by auto
  show "set (tebs s') \<subseteq> set (tebs s)" using a b c by blast
  show "length (tebs s') \<le> length (tebs s)" using a b c by linarith
qed












subsection \<open>The deterministic graph builder\<close>

lemma keypoint_loop_vertices:
  "vertex_pos (fst (keypoint_loop E sp diff normal lh obs g nearest md))
     = vertex_pos g @
       concat (map (\<lambda>ob. [vadd (getCentroid E ob) normal, vsub (getCentroid E ob) normal])
                 (filter (in_front_of E sp diff) obs))"
proof -
  have step: "keypoint_loop E sp diff normal lh (ob # obs) g nearest md =
     (if \<not> in_front_of E sp diff ob then keypoint_loop E sp diff normal lh obs g nearest md
      else if lh \<and> vnorm (vsub (getCentroid E ob) sp) < md
      then keypoint_loop E sp diff normal lh obs
             (g\<lparr>vertex_pos := vertex_pos g
                 @ [vadd (getCentroid E ob) normal, vsub (getCentroid E ob) normal]\<rparr>)
             (Some (length (vertex_pos g), Suc (length (vertex_pos g))))
             (vnorm (vsub (getCentroid E ob) sp))
      else keypoint_loop E sp diff normal lh obs
             (g\<lparr>vertex_pos := vertex_pos g
                 @ [vadd (getCentroid E ob) normal, vsub (getCentroid E ob) normal]\<rparr>)
             nearest md)" for ob obs g nearest md
    unfolding in_front_of_def by (simp add: Let_def add_vertex_def)
  show ?thesis
  proof (induction obs arbitrary: g nearest md)
    case Nil
    then show ?case by simp
  next
    case (Cons ob obs)
    show ?case by (simp only: step Cons.IH split: if_splits) simp
  qed
qed

lemma createGraph_edge_vertices:
  "vertex_pos (createGraph_edge E c obs start d lh diff sv nearest md i j g) = vertex_pos g"
  by (simp add: createGraph_edge_def Let_def add_edge_def)

lemma fold_vertices:
  assumes "\<And>x g. vertex_pos (f x g) = vertex_pos g"
  shows "vertex_pos (fold f xs g) = vertex_pos g"
  using assms by (induction xs arbitrary: g) simp_all

lemma createGraph_edges_vertices:
  "vertex_pos (createGraph_edges E c obs start d lh diff sv nearest g) = vertex_pos g"
  unfolding createGraph_edges_def Let_def
  by (intro fold_vertices createGraph_edge_vertices)

lemma createGraph_vertices_pos:
  "vertex_pos (fst (snd (snd (createGraph_vertices E (Some obs) start goal d lh g0))))
     = vertex_pos g0 @ position start
       # concat (map (keypoints E start goal d) (filter (placed_in_front E start goal) obs))
       @ [position goal]"
proof -
  have k: "(\<lambda>ob. [vadd (getCentroid E ob) (keypoint_normal start goal d),
                  vsub (getCentroid E ob) (keypoint_normal start goal d)])
             = keypoints E start goal d"
    by (simp add: keypoints_def fun_eq_iff)
  have p: "in_front_of E (position start) (vnormalize (vsub (position goal) (position start)))
             = placed_in_front E start goal"
    by (simp add: placed_in_front_def fun_eq_iff)
  show ?thesis
    by (simp add: createGraph_vertices_def Let_def add_vertex_def keypoint_loop_vertices k p
        keypoint_normal_def [of start goal d, unfolded Let_def, symmetric])
qed

lemma DepthFirst_graph: "graph (DepthFirst E g visited goal so go s) = graph s"
  using DepthFirst_frame [of s E g visited goal so go] by (simp add: same_frame_def)

lemma createGraph_vertex_list:
  assumes "obstacles s = Some obs"
    and "\<not> vnorm (vsub (position goal) (position start)) < xy_goal_tolerance (cfg s)"
  shows "vertex_pos (graph (createGraph E start goal d lh s))
           = position start
             # concat (map (keypoints E start goal d) (filter (placed_in_front E start goal) obs))
             @ [position goal]"
  using assms createGraph_vertices_pos [of E obs start goal d lh empty_graph]
  by (auto simp: createGraph_def Let_def DepthFirst_graph createGraph_edges_vertices
      empty_graph_def split: prod.splits)

text \<open>
  Claim C8, as the source has it. When the obstacle container is not null and the
  distance from start to goal is not below the goal tolerance, the vertices of the
  graph built by \<^verbatim>\<open>createGraph\<close> are, in order: the start; for every obstacle that is
  placed in front of the start, its two keypoints, the centroid plus and the centroid
  minus the clearance-scaled normal to the direction from start to goal; the goal. An
  obstacle that is not placed in front of the start has no keypoint vertex.
\<close>

theorem createGraph_keypoints:
  assumes "obstacles s = Some obs"
    and "xy_goal_tolerance (cfg s) \<le> vnorm (vsub (position goal) (position start))"
  shows "vertex_pos (graph (createGraph E start goal dist_to_obst limit_obstacle_heading s))
           = position start
             # concat (map (keypoints E start goal dist_to_obst)
                         (filter (placed_in_front E start goal) obs))
             @ [position goal]"
  using assms by (intro createGraph_vertex_list) (simp_all add: not_less)

lemma demo_norm: "vnorm (2, 0) = 2"
proof -
  have "vnorm (2, 0) = sqrt (2\<^sup>2)" by (simp add: vnorm_def)
  then show ?thesis by simp
qed

lemma demo_normal: "keypoint_normal demo_start demo_goal (1 / 2) = (0, 1 / 2)"
proof -
  have "vnorm (0, 2) = sqrt (2\<^sup>2)" by (simp add: vnorm_def)
  then have "vnorm (0, 2) = 2" by simp
  then show ?thesis
    by (simp add: keypoint_normal_def demo_start_def demo_goal_def vsub_def vnormalize_def
        vscale_def)
qed

lemma demo_front:
  "placed_in_front demo_env demo_start demo_goal (1, 0)"
  "\<not> placed_in_front demo_env demo_start demo_goal (- 1, 0)"
proof -
  have n: "vnorm (1, 0) = 1" "vnorm (- 1, 0) = 1" by (simp_all add: vnorm_def)
  show "placed_in_front demo_env demo_start demo_goal (1, 0)"
    using n demo_norm
    by (simp add: placed_in_front_def in_front_of_def demo_env_def demo_start_def demo_goal_def
        vsub_def vnormalize_def vdot_def)
  show "\<not> placed_in_front demo_env demo_start demo_goal (- 1, 0)"
    using n demo_norm
    by (simp add: placed_in_front_def in_front_of_def demo_env_def demo_start_def demo_goal_def
        vsub_def vnormalize_def vdot_def)
qed

lemma demo_far: "\<not> vnorm (vsub (position demo_goal) (position demo_start))
                     < xy_goal_tolerance (cfg (demo_planner\<lparr>obstacles := obs\<rparr>))"
  using demo_norm
  by (simp add: demo_goal_def demo_start_def vsub_def demo_planner_def demo_cfg_def)

theorem createGraph_keypoints_witness:
  "obstacles (demo_planner\<lparr>obstacles := Some [(1, 0), (- 1, 0)]\<rparr>) = Some [(1, 0), (- 1, 0)]
   \<and> xy_goal_tolerance (cfg (demo_planner\<lparr>obstacles := Some [(1, 0), (- 1, 0)]\<rparr>))
       \<le> vnorm (vsub (position demo_goal) (position demo_start))
   \<and> vertex_pos (graph (createGraph demo_env demo_start demo_goal (1 / 2) True
                          (demo_planner\<lparr>obstacles := Some [(1, 0), (- 1, 0)]\<rparr>)))
       = [(0, 0), (1, 1 / 2), (1, - 1 / 2), (2, 0)]"
proof -
  let ?s = "demo_planner\<lparr>obstacles := Some [(1, 0), (- 1, 0)]\<rparr>"
  have o: "obstacles ?s = Some [(1, 0), (- 1, 0)]" by simp
  have t: "xy_goal_tolerance (cfg ?s) \<le> vnorm (vsub (position demo_goal) (position demo_start))"
    using demo_far [of "Some [(1, 0), (- 1, 0)]"] by simp
  show ?thesis
    using o t createGraph_keypoints [OF o t, of demo_env "1 / 2" True] demo_front demo_normal
    by (simp add: keypoints_def demo_env_def vadd_def vsub_def)
       (simp add: demo_start_def demo_goal_def)
qed


text \<open>
  Claim C8 as stated fails: the obstacle at \<open>(-1, 0)\<close> lies behind the start, and the
  graph has the start and the goal as its only vertices.
\<close>

theorem createGraph_obstacle_behind_counterexample:
  "obstacles (demo_planner\<lparr>obstacles := Some [(- 1, 0)]\<rparr>) = Some [(- 1, 0)]
   \<and> vertex_pos (graph (createGraph demo_env demo_start demo_goal (1 / 2) True
                          (demo_planner\<lparr>obstacles := Some [(- 1, 0)]\<rparr>)))
       = [(0, 0), (2, 0)]"
  using createGraph_vertex_list [OF _ demo_far, of "Some [(- 1, 0)]" "[(- 1, 0)]" demo_env "1 / 2" True]
    demo_front
  by (simp add: demo_start_def demo_goal_def)


subsection \<open>The exploration pass and the class budget\<close>

lemma createGraph_bound:
  fixes s :: "('teb, 'obst) planner"
  assumes "int (length (tebs s)) \<le> B" and "max_number_classes (cfg s) \<le> B"
  shows "int (length (tebs (createGraph E start goal d lh s))) \<le> B"
    and "same_frame (s\<lparr>graph := graph (createGraph E start goal d lh s)\<rparr>)
           (createGraph E start goal d lh s)"
proof -
  show "int (length (tebs (createGraph E start goal d lh s))) \<le> B"
    using assms
    by (auto simp: createGraph_def Let_def split: prod.splits intro!: DepthFirst_bound)
  show "same_frame (s\<lparr>graph := graph (createGraph E start goal d lh s)\<rparr>)
           (createGraph E start goal d lh s)"
  proof (cases "vnorm (vsub (position goal) (position start)) < xy_goal_tolerance (cfg s)")
    case True
    then show ?thesis by (simp add: createGraph_def Let_def same_frame_def)
  next
    case False
    obtain sv gv g1 nm where v: "createGraph_vertices E (obstacles s) start goal d lh empty_graph
         = (sv, gv, g1, nm)"
      by (metis prod_cases4)
    let ?g = "createGraph_edges E (cfg s) (obstacles s) start d lh
                (vnormalize (vsub (position goal) (position start))) sv nm g1"
    have e: "createGraph E start goal d lh s
               = DepthFirst E ?g [sv] gv (theta start) (theta goal) (s\<lparr>graph := ?g\<rparr>)"
      using False v by (simp add: createGraph_def Let_def)
    show ?thesis
      unfolding e using DepthFirst_frame [of "s\<lparr>graph := ?g\<rparr>" E ?g "[sv]" gv]
      by (simp add: same_frame_def)
  qed
qed

lemma createProbRoadmapGraph_bound:
  fixes s :: "('teb, 'obst) planner"
  assumes "createProbRoadmapGraph E start goal d lh s = Some s'"
    and "int (length (tebs s)) \<le> B" and "max_number_classes (cfg s) \<le> B"
  shows "int (length (tebs s')) \<le> B \<and> cfg s' = cfg s"
proof (cases "vnorm (vsub (position goal) (position start)) < xy_goal_tolerance (cfg s)")
  case True
  then have "s' = s\<lparr>graph := empty_graph\<rparr>"
    using assms(1) by (simp add: createProbRoadmapGraph_def Let_def)
  then show ?thesis using assms(2) by simp
next
  case False
  then obtain g sv gv k where
    "s' = DepthFirst E g [sv] gv (theta start) (theta goal) (s\<lparr>graph := g, rnd_generator := k\<rparr>)"
    using assms(1)
    by (auto simp: createProbRoadmapGraph_def Let_def split: option.splits)
  then show ?thesis
    using assms(2,3)
      DepthFirst_bound [of "s\<lparr>graph := g, rnd_generator := k\<rparr>" B E g "[sv]" gv]
      DepthFirst_frame [of "s\<lparr>graph := g, rnd_generator := k\<rparr>" E g "[sv]" gv]
    by (simp add: same_frame_def)
qed

lemma explore_bound:
  fixes s :: "('teb, 'obst) planner"
  assumes "exploreHomotopyClassesAndInitTebs E start goal d hp s = Some s'"
    and "int (length (tebs s)) \<le> B" and "max_number_classes (cfg s) \<le> B"
  shows "int (length (tebs s')) \<le> B \<and> cfg s' = cfg s"
proof -
  from assms(1) obtain s1 where s1: "renewAndAnalyzeOldTebs E False s = Some s1"
    by (auto simp: exploreHomotopyClassesAndInitTebs_def split: option.splits)
  have c1: "cfg s1 = cfg s" using renew_result(1) [OF s1] by (simp add: same_frame_def)
  have l1: "int (length (tebs s1)) \<le> B"
    using renew_result(3) [OF s1] assms(2) by linarith
  have m1: "max_number_classes (cfg s1) \<le> B" using c1 assms(3) by simp
  show ?thesis
  proof (cases "simple_exploration (cfg s1)")
    case True
    then have "s' = createGraph E start goal d (obstacle_heading_threshold (cfg s1) \<noteq> 0) s1"
      using assms(1) s1 by (simp add: exploreHomotopyClassesAndInitTebs_def)
    then show ?thesis
      using createGraph_bound [OF l1 m1, of E start goal d "obstacle_heading_threshold (cfg s1) \<noteq> 0"]
        c1 by (simp add: same_frame_def)
  next
    case False
    then have "createProbRoadmapGraph E start goal d (obstacle_heading_threshold (cfg s1) \<noteq> 0) s1
                 = Some s'"
      using assms(1) s1 by (simp add: exploreHomotopyClassesAndInitTebs_def)
    from createProbRoadmapGraph_bound [OF this l1 m1] c1 show ?thesis by simp
  qed
qed

lemma demo_scene_vertices:
  "createGraph_vertices demo_env (Some [(1, 0)]) demo_start demo_goal (1 / 2) True empty_graph
     = (0, 3, \<lparr>vertex_pos = [(0, 0), (1, 1 / 2), (1, - 1 / 2), (2, 0)], edges = []\<rparr>,
        Some (1, 2), 1)"
proof -
  have "vnorm (0, 2) = sqrt (2\<^sup>2)" by (simp add: vnorm_def)
  then have n: "vnorm (0, 2) = 2" by simp
  have m: "vnorm (1, 0) = 1" by (simp add: vnorm_def)
  have d: "1 < DBL_MAX" using DBL_MAX_big by simp
  show ?thesis
    using n m d demo_norm
    by (simp add: createGraph_vertices_def Let_def add_vertex_def empty_graph_def demo_env_def
        demo_start_def demo_goal_def vsub_def vadd_def vscale_def vnormalize_def vdot_def)
qed

lemma demo_scene_edges:
  "createGraph_edges demo_env demo_cfg (Some [(1, 0)]) demo_start (1 / 2) True (1, 0) 0
     (Some (1, 2), 1) \<lparr>vertex_pos = [(0, 0), (1, 1 / 2), (1, - 1 / 2), (2, 0)], edges = []\<rparr>
     = \<lparr>vertex_pos = [(0, 0), (1, 1 / 2), (1, - 1 / 2), (2, 0)],
        edges = [(0, 1), (0, 2), (0, 3), (1, 3), (2, 3)]\<rparr>"
proof -
  have u: "[0 ..< 4] = [0, 1, 2, Suc 2]" "[0 ..< 3] = [0, 1, 2 :: nat]"
    by (simp_all add: upt_rec)
  have d: "(1 :: real) \<noteq> DBL_MAX" using DBL_MAX_big by simp
  show ?thesis
    using d
    by (simp add: createGraph_edges_def Let_def u createGraph_edge_def demo_cfg_def demo_env_def
        demo_start_def line_collision_def add_edge_def vsub_def vnormalize_def vdot_def vnorm_def
        real_sqrt_divide)
qed


lemma demo_scene_search:
  "DepthFirst demo_env demo_scene_graph [0] 3 0 0 (demo_scene\<lparr>graph := demo_scene_graph\<rparr>)
     = demo_scene\<lparr>graph := demo_scene_graph,
                   tebs := [demo_new_band [(0, 0), (2, 0)],
                            demo_new_band [(0, 0), (1, 1 / 2), (2, 0)]],
                   h_signatures := [Complex 0 0, Complex (1 / 2) 0]\<rparr>"
  by (simp add: DepthFirst.simps demo_scene_def demo_planner_def demo_cfg_def demo_scene_graph_def
      adjacent_vertices_def Let_def getVector2dFromHcGraph_def demo_env_def
      addNewHSignatureIfNew_def addAndInitNewTeb_def h_close_def demo_new_band_def)

lemma demo_scene_explore:
  "exploreHomotopyClassesAndInitTebs demo_env demo_start demo_goal (1 / 2) (1 / 10) demo_scene
     = Some (demo_scene\<lparr>graph := demo_scene_graph,
                   tebs := [demo_new_band [(0, 0), (2, 0)],
                            demo_new_band [(0, 0), (1, 1 / 2), (2, 0)]],
                   h_signatures := [Complex 0 0, Complex (1 / 2) 0]\<rparr>)"
proof -
  have r: "renewAndAnalyzeOldTebs demo_env False demo_scene = Some demo_scene"
    by (simp add: renewAndAnalyzeOldTebs_def demo_scene_def demo_planner_def renew_dedup.simps)
  have c: "cfg demo_scene = demo_cfg" "obstacles demo_scene = Some [(1, 0)]"
    "simple_exploration demo_cfg" "obstacle_heading_threshold demo_cfg \<noteq> 0"
    "xy_goal_tolerance demo_cfg = 1 / 5"
    by (simp_all add: demo_scene_def demo_planner_def demo_cfg_def)
  have n: "vnorm (vsub (position demo_goal) (position demo_start)) = 2"
    "vnormalize (vsub (position demo_goal) (position demo_start)) = (1, 0)"
    "theta demo_start = 0" "theta demo_goal = 0"
    using demo_norm by (simp_all add: demo_goal_def demo_start_def vsub_def vnormalize_def)
  have g: "createGraph demo_env demo_start demo_goal (1 / 2) True demo_scene
             = DepthFirst demo_env demo_scene_graph [0] 3 0 0 (demo_scene\<lparr>graph := demo_scene_graph\<rparr>)"
    using demo_scene_edges
    by (simp add: createGraph_def Let_def c n demo_scene_vertices demo_scene_graph_def)
  show ?thesis
    by (simp add: exploreHomotopyClassesAndInitTebs_def r c g demo_scene_search)
qed


text \<open>
  Claim C2. When the pool holds no more candidates than the configured maximum class
  count before the exploration pass (as it does for the empty pool of a new planner),
  it holds no more than that after the pass, for every graph and every obstacle
  configuration; the same holds for every single call of \<^verbatim>\<open>DepthFirst\<close>. And once
  the number of candidates has reached the maximum, \<^verbatim>\<open>DepthFirst\<close> returns the
  planner as it is: it spawns no branch and adds no candidate.
\<close>

theorem exploration_respects_class_budget:
  fixes s :: "('teb, 'obst) planner"
  assumes "int (length (tebs s)) \<le> max_number_classes (cfg s)"
  shows "(\<forall>s'. exploreHomotopyClassesAndInitTebs E start goal dist_to_obst hp_threshold s = Some s'
            \<longrightarrow> int (length (tebs s')) \<le> max_number_classes (cfg s'))
       \<and> int (length (tebs (DepthFirst E g visited goal_vtx start_orientation goal_orientation s)))
           \<le> max_number_classes (cfg s)
       \<and> (\<forall>s0 :: ('teb, 'obst) planner.
             max_number_classes (cfg s0) \<le> int (length (tebs s0))
             \<longrightarrow> DepthFirst E g visited goal_vtx start_orientation goal_orientation s0 = s0)"
proof (intro conjI allI impI)
  fix s'
  assume "exploreHomotopyClassesAndInitTebs E start goal dist_to_obst hp_threshold s = Some s'"
  from explore_bound [OF this assms order_refl]
  show "int (length (tebs s')) \<le> max_number_classes (cfg s')" by simp
next
  show "int (length (tebs (DepthFirst E g visited goal_vtx start_orientation goal_orientation s)))
           \<le> max_number_classes (cfg s)"
    using assms by (intro DepthFirst_bound) simp_all
next
  fix s0 :: "('teb, 'obst) planner"
  assume "max_number_classes (cfg s0) \<le> int (length (tebs s0))"
  then show "DepthFirst E g visited goal_vtx start_orientation goal_orientation s0 = s0"
    by (rule DepthFirst_budget_spent)
qed


theorem exploration_respects_class_budget_witness:
  "int (length (tebs demo_scene)) \<le> max_number_classes (cfg demo_scene)
   \<and> (\<exists>s'. exploreHomotopyClassesAndInitTebs demo_env demo_start demo_goal (1 / 2) (1 / 10)
              demo_scene = Some s'
          \<and> length (tebs s') = 2
          \<and> int (length (tebs s')) \<le> max_number_classes (cfg s'))"
proof -
  have h: "int (length (tebs demo_scene)) \<le> max_number_classes (cfg demo_scene)"
    by (simp add: demo_scene_def demo_planner_def demo_cfg_def)
  from exploration_respects_class_budget [OF h, of demo_env demo_start demo_goal "1 / 2" "1 / 10"] h demo_scene_explore
  show ?thesis by simp
qed

subsection \<open>The planning cycle\<close>










end
